theory Spec2Isabelle
  imports Complex_Main "HOL-Library.Multiset"
begin

section \<open>Numbers and the quantile function\<close>

text \<open>
  The statistics module \<^verbatim>\<open>stats.py\<close> computes with Python numbers. They are embedded
  as exact reals: the sample size \<open>n\<close> is an \<open>int\<close>, counts and probabilities are
  \<open>real\<close>. The rounding of binary floating point is modelled in one place, the
  construction of the grid of confidence levels, where it decides how many levels there
  are; the arithmetic on each level is exact.

  \<^verbatim>\<open>scipy.stats.beta(a, b).ppf\<close> is library code. It enters every definition as a
  parameter of type \<open>quantile\<close>: shape \<open>a\<close>, shape \<open>b\<close>, probability \<open>q\<close>, result the
  \<open>q\<close>-quantile of Beta(a, b). Theorems that need a property of it (monotonicity in
  \<open>q\<close>) assume it by name.
\<close>

type_synonym quantile = "real \<Rightarrow> real \<Rightarrow> real \<Rightarrow> real"

definition quantile_mono :: "quantile \<Rightarrow> real \<Rightarrow> real \<Rightarrow> bool" where
  "quantile_mono ppf a b =
     (\<forall>q1 q2. 0 < q1 \<and> q1 \<le> q2 \<and> q2 < 1 \<longrightarrow> ppf a b q1 \<le> ppf a b q2)"

text \<open>
  Beta(1, 1) is the uniform distribution on the unit interval, and its quantile function
  is the identity. \<open>uniform_ppf\<close> is the library function at the shape \<open>a = b = 1\<close>,
  which \<open>ci_ote\<close> reaches with \<open>n = 1\<close> and \<open>o = 1/2\<close>. Concrete evaluations below
  use that shape wherever the value of a quantile matters.
\<close>

definition uniform_ppf :: quantile where
  "uniform_ppf a b q = q"

section \<open>Python values and errors\<close>

text \<open>
  Python values as far as \<^verbatim>\<open>BH_adjusted_pval\<close> tells them apart: a number, which is not
  iterable, and a list of values. The errors of the module: the unbound loop variable,
  the \<^verbatim>\<open>ValueError\<close> that \<^verbatim>\<open>BH_adjusted_pval\<close> raises itself (its message shows the
  received argument), and the error raised inside \<^verbatim>\<open>astype(float)\<close> at an element
  that is not a number.
\<close>

datatype py_val = PyNum real | PyList "py_val list"

datatype error =
    UnboundLocalError
  | ValueError_received py_val
  | AstypeError py_val

section \<open>Interval engine: \<^verbatim>\<open>ci_ote\<close>\<close>

text \<open>
  \<^verbatim>\<open>
  dist = beta(a=(1 / 2 + o), b=(1 / 2 + n - o))
  ci_default_prob = np.array([dist.ppf((1 - cl) / 2), dist.ppf((1 + cl) / 2)])
  if o == 0: ci_default_prob[0] = 0
  if n == o: ci_default_prob[1] = 1
  ci = ci_default_prob * n / e
  return tuple(ci)
  \<close>
  The observed count is called \<open>obs\<close> here.
\<close>

definition ci_ote :: "quantile \<Rightarrow> int \<Rightarrow> real \<Rightarrow> real \<Rightarrow> real \<Rightarrow> real \<times> real" where
  "ci_ote ppf n obs e cl =
     (let a = 1 / 2 + obs;
          b = 1 / 2 + real_of_int n - obs;
          lo = ppf a b ((1 - cl) / 2);
          hi = ppf a b ((1 + cl) / 2);
          lo' = (if obs = 0 then 0 else lo);
          hi' = (if real_of_int n = obs then 1 else hi)
      in (lo' * real_of_int n / e, hi' * real_of_int n / e))"

text \<open>The domain the calling layer checks before it calls the engine.\<close>

definition valid_obs :: "int \<Rightarrow> real \<Rightarrow> real \<Rightarrow> bool" where
  "valid_obs n obs e = (0 < n \<and> 0 \<le> obs \<and> obs \<le> real_of_int n \<and> 0 < e \<and> e \<le> real_of_int n)"

definition valid_cl :: "real \<Rightarrow> bool" where
  "valid_cl cl = (0 < cl \<and> cl < 1)"

section \<open>Doubles\<close>

text \<open>
  \<open>fl\<close> rounds a real to the nearest double: 53 significant bits, a tie going to the
  neighbour with an even last bit. \<open>binade\<close> finds the exponent \<open>e\<close> with
  \<open>2^e \<le> x < 2^(e+1)\<close> of a positive \<open>x\<close> by halving or doubling; its fuel covers the
  exponent range of doubles. \<open>ulp\<close> is the spacing \<open>2^(e-52)\<close> of the doubles around
  \<open>x\<close>. Overflow and subnormal numbers are not modelled: every number rounded below
  lies between \<open>2^-14\<close> and \<open>2^7\<close>.
\<close>

fun binade :: "nat \<Rightarrow> real \<Rightarrow> int" where
  "binade 0 x = 0"
| "binade (Suc k) x =
     (if 2 \<le> x then binade k (x / 2) + 1
      else if x < 1 then binade k (2 * x) - 1
      else 0)"

definition round_half_even :: "real \<Rightarrow> int" where
  "round_half_even x =
     (let f = \<lfloor>x\<rfloor>; d = x - of_int f
      in if d < 1 / 2 then f else if 1 / 2 < d then f + 1 else if even f then f else f + 1)"

definition ulp :: "real \<Rightarrow> real" where
  "ulp x =
     (let e = binade 1100 \<bar>x\<bar> - 52
      in if 0 \<le> e then 2 ^ nat e else 1 / 2 ^ nat (- e))"

definition fl :: "real \<Rightarrow> real" where
  "fl x = (if x = 0 then 0 else of_int (round_half_even (x / ulp x)) * ulp x)"

section \<open>Significance search: \<^verbatim>\<open>calculate_p_value\<close>\<close>

text \<open>
  \<^verbatim>\<open>np.arange(start, stop, step)\<close> on doubles. The length is the ceiling of
  \<open>(stop - start) / step\<close>, the difference and the quotient each rounded. The first
  value is \<open>start\<close>, the second \<open>start + step\<close>; from the third on, value \<open>i\<close> is
  \<open>start + i * delta\<close>, where \<open>delta\<close> is the second value minus the first, with the
  product and the sum each rounded.
\<close>

definition arange :: "real \<Rightarrow> real \<Rightarrow> real \<Rightarrow> real list" where
  "arange start stop step =
     (let len = nat \<lceil>fl (fl (stop - start) / step)\<rceil>;
          next = fl (start + step);
          delta = fl (next - start)
      in map (\<lambda>i. if i = 0 then start else if i = 1 then next
                    else fl (start + fl (real i * delta))) [0 ..< len])"

text \<open>
  \<^verbatim>\<open>
  conf_levels = (
      list(np.arange(0.01, 0.99, 0.01))
      + list(np.arange(0.99, 0.999, 0.001))
      + list(np.arange(0.999, 1, 0.0001))
  )
  \<close>
  A decimal literal is the double nearest to it.
\<close>

definition conf_levels :: "real list" where
  "conf_levels =
     arange (fl (1 / 100)) (fl (99 / 100)) (fl (1 / 100))
     @ arange (fl (99 / 100)) (fl (999 / 1000)) (fl (1 / 1000))
     @ arange (fl (999 / 1000)) 1 (fl (1 / 10000))"

text \<open>The test of the loop body: \<^verbatim>\<open>(ci[0] < 1) and (1 < ci[1])\<close>.\<close>

definition contains_one :: "real \<times> real \<Rightarrow> bool" where
  "contains_one ci = (fst ci < 1 \<and> 1 < snd ci)"

definition excludes_one :: "real \<times> real \<Rightarrow> bool" where
  "excludes_one ci = (\<not> contains_one ci)"

text \<open>
  \<^verbatim>\<open>
  for cl in conf_levels:
      ci = ci_ote(n, o, e, cl=cl)
      if (ci[0] < 1) and (1 < ci[1]):
          break
  return 1 - cl
  \<close>
  The loop variable survives the loop. \<open>sweep\<close> carries it as an option: \<open>None\<close> before
  the first iteration, where Python's \<^verbatim>\<open>1 - cl\<close> would raise. The subtraction is
  taken in the reals. On doubles it is exact for every level from \<open>0.5\<close> up, the last
  level among them; for a level below \<open>0.5\<close> the double result is within \<open>2^-54\<close> of
  the real one.
\<close>

fun sweep :: "(real \<Rightarrow> real \<times> real) \<Rightarrow> real option \<Rightarrow> real list \<Rightarrow> real option" where
  "sweep ci cur [] = cur"
| "sweep ci cur (cl # cls) =
     (if contains_one (ci cl) then Some cl else sweep ci (Some cl) cls)"

definition calculate_p_value :: "quantile \<Rightarrow> int \<Rightarrow> real \<Rightarrow> real \<Rightarrow> error + real" where
  "calculate_p_value ppf n obs e =
     (case sweep (\<lambda>cl. ci_ote ppf n obs e cl) None conf_levels of
        None \<Rightarrow> Inl UnboundLocalError
      | Some cl \<Rightarrow> Inr (1 - cl))"


text \<open>The grid as a list of intervals, one per confidence level swept.\<close>

definition intervals_swept :: "quantile \<Rightarrow> int \<Rightarrow> real \<Rightarrow> real \<Rightarrow> (real \<times> real) list" where
  "intervals_swept ppf n obs e = map (ci_ote ppf n obs e) conf_levels"

section \<open>HDI engine: \<^verbatim>\<open>calculate_beta_hdi\<close> and \<^verbatim>\<open>ci_ote_hdi\<close>\<close>

text \<open>
  \<^verbatim>\<open>scipy.optimize.fmin(func, x0, ftol=1e-4, disp=False)\<close> is library code and a
  parameter here: objective, start, tolerance. With \<^verbatim>\<open>full_output\<close> left at its
  default the call returns the last iterate only; with \<^verbatim>\<open>disp=False\<close> it prints
  nothing. How the run ended (\<open>warnflag\<close>: 0 converged, 1 evaluation cap, 2 iteration
  cap) is kept in the model of a run so that it can be talked about; the source reads
  \<^verbatim>\<open>[0]\<close>, the iterate.
\<close>

record fmin_run =
  xopt :: real
  warnflag :: nat

type_synonym minimizer = "(real \<Rightarrow> real) \<Rightarrow> real \<Rightarrow> real \<Rightarrow> fmin_run"

text \<open>A minimizer whose iteration cap is spent at once: it hands back its start.\<close>

definition capped_fmin :: minimizer where
  "capped_fmin f x0 ftol = \<lparr>xopt = x0, warnflag = 2\<rparr>"

text \<open>
  \<^verbatim>\<open>
  dist = beta(a=a, b=b)
  q = 1.0 - p
  def interval_width(lower_tail_prob):
      return dist.ppf(p + lower_tail_prob) - dist.ppf(lower_tail_prob)
  HDI_CI_left = fmin(interval_width, q, ftol=1e-4, disp=False)[0]
  return dist.ppf([HDI_CI_left, p + HDI_CI_left])
  \<close>
\<close>

definition interval_width :: "quantile \<Rightarrow> real \<Rightarrow> real \<Rightarrow> real \<Rightarrow> real \<Rightarrow> real" where
  "interval_width ppf a b p lower_tail_prob =
     ppf a b (p + lower_tail_prob) - ppf a b lower_tail_prob"

definition calculate_beta_hdi ::
    "quantile \<Rightarrow> minimizer \<Rightarrow> real \<Rightarrow> real \<Rightarrow> real \<Rightarrow> error + real \<times> real" where
  "calculate_beta_hdi ppf fmin a b p =
     (let q = 1 - p;
          HDI_CI_left = xopt (fmin (interval_width ppf a b p) q (1 / 10000))
      in Inr (ppf a b HDI_CI_left, ppf a b (p + HDI_CI_left)))"

text \<open>
  \<^verbatim>\<open>
  beta_hdi = calculate_beta_hdi(a=(1 / 2 + o), b=(1 / 2 + (n - o)), p=cl)
  ci = beta_hdi * n / e
  \<close>
\<close>

definition ci_ote_hdi ::
    "quantile \<Rightarrow> minimizer \<Rightarrow> int \<Rightarrow> real \<Rightarrow> real \<Rightarrow> real \<Rightarrow> error + real \<times> real" where
  "ci_ote_hdi ppf fmin n obs e cl =
     (case calculate_beta_hdi ppf fmin (1 / 2 + obs) (1 / 2 + (real_of_int n - obs)) cl of
        Inl err \<Rightarrow> Inl err
      | Inr beta_hdi \<Rightarrow>
          Inr (fst beta_hdi * real_of_int n / e, snd beta_hdi * real_of_int n / e))"

section \<open>Multiplicity adjustment: \<^verbatim>\<open>BH_adjusted_pval\<close>\<close>

text \<open>
  The data frame is a list of rows in frame order; a row keeps its index label, its
  p-value and its rank. \<^verbatim>\<open>Series.rank()\<close> ranks ascending from 1 and gives tied values
  the average of the positions they occupy: the count of smaller values plus half of
  (the count of equal values plus one).
\<close>

record row =
  idx :: nat
  p_val :: real
  rank :: real

definition average_rank :: "real list \<Rightarrow> real \<Rightarrow> real" where
  "average_rank ps p =
     real (length (filter (\<lambda>q. q < p) ps))
     + (real (length (filter (\<lambda>q. q = p) ps)) + 1) / 2"

definition to_frame :: "real list \<Rightarrow> row list" where
  "to_frame ps =
     map (\<lambda>(i, p). \<lparr>idx = i, p_val = p, rank = average_rank ps p\<rparr>) (enumerate 0 ps)"

text \<open>\<^verbatim>\<open>Series.cummin()\<close>: the running minimum.\<close>

fun cummin :: "real list \<Rightarrow> real list" where
  "cummin [] = []"
| "cummin (x # xs) = x # map (min x) (cummin xs)"

text \<open>
  \<^verbatim>\<open>
  p_val_df["rank"] = p_val_df[_P_VAL_COL].astype(float).rank()
  p_val_df.sort_values(by="rank", ascending=False, inplace=True)
  p_val_df[_MULT_ADJ_P_VAL_COL] = (
      p_val_df[_P_VAL_COL] * len(p_val_df) / p_val_df["rank"]
  ).cummin()
  p_val_df[_MULT_ADJ_P_VAL_COL] = np.minimum(p_val_df[_MULT_ADJ_P_VAL_COL], 1)
  p_val_df.sort_index(inplace=True)
  return p_val_df[_MULT_ADJ_P_VAL_COL]
  \<close>
  The steps after the sort are \<open>adjust_sorted\<close>: the adjusted column is computed on the
  sorted frame, travels with the index labels, and \<^verbatim>\<open>sort_index\<close> puts the labels back
  in ascending order. Sorting by descending rank is \<open>sort_key\<close> on the negated rank.
\<close>

definition adjust_sorted :: "row list \<Rightarrow> real list" where
  "adjust_sorted p_val_df =
     (let raw = map (\<lambda>r. p_val r * real (length p_val_df) / rank r) p_val_df;
          adj = map (\<lambda>x. min x 1) (cummin raw)
      in map snd (sort_key fst (zip (map idx p_val_df) adj)))"

definition BH_adjusted_series :: "real list \<Rightarrow> real list" where
  "BH_adjusted_series ps = adjust_sorted (sort_key (\<lambda>r. - rank r) (to_frame ps))"

text \<open>
  \<open>sort_key\<close> is stable and the library's sort need not be. What any sort guarantees is
  \<open>rank_descending\<close>: the rows of the frame, rearranged so that the ranks do not
  increase. The lemmas below assume no more than that of the sorted frame, and
  \<open>adjust_sorted_any_order\<close> shows that the adjusted values are the same for every such
  arrangement.
\<close>

definition rank_descending :: "real list \<Rightarrow> row list \<Rightarrow> bool" where
  "rank_descending ps df = (mset df = mset (to_frame ps) \<and> sorted (map (\<lambda>r. - rank r) df))"

text \<open>
  \<^verbatim>\<open>
  if isinstance(p_vals, Iterable):
      p_val_series = pd.Series(p_vals, name=_P_VAL_COL)
  else:
      raise ValueError(
          f"BH adjustment only takes an iterable of p-vals; received {p_vals=}"
      )
  p_val_df = p_val_series.astype(float).to_frame()
  \<close>
\<close>

fun is_iterable :: "py_val \<Rightarrow> bool" where
  "is_iterable (PyList xs) = True"
| "is_iterable (PyNum x) = False"

fun series_of :: "py_val \<Rightarrow> py_val list" where
  "series_of (PyList xs) = xs"
| "series_of (PyNum x) = [PyNum x]"

fun astype_float :: "py_val list \<Rightarrow> error + real list" where
  "astype_float [] = Inr []"
| "astype_float (PyNum x # vs) =
     (case astype_float vs of Inl err \<Rightarrow> Inl err | Inr xs \<Rightarrow> Inr (x # xs))"
| "astype_float (v # vs) = Inl (AstypeError v)"

definition BH_adjusted_pval :: "py_val \<Rightarrow> error + real list" where
  "BH_adjusted_pval p_vals =
     (if is_iterable p_vals
      then (case astype_float (series_of p_vals) of
              Inl err \<Rightarrow> Inl err
            | Inr ps \<Rightarrow> Inr (BH_adjusted_series ps))
      else Inl (ValueError_received p_vals))"

text \<open>
  An iterable of numeric p-values is a list whose elements are all numbers; the batch of
  reals \<open>ps\<close> is passed as \<open>batch ps\<close>.
\<close>

definition batch :: "real list \<Rightarrow> py_val" where
  "batch ps = PyList (map PyNum ps)"

fun is_num :: "py_val \<Rightarrow> bool" where
  "is_num (PyNum x) = True"
| "is_num (PyList xs) = False"

definition iterable_of_numbers :: "py_val \<Rightarrow> bool" where
  "iterable_of_numbers v = (is_iterable v \<and> list_all is_num (series_of v))"

section \<open>Rounding\<close>

text \<open>
  What \<open>fl\<close> is: the spacing \<open>ulp x\<close> is \<open>2^-52\<close> times the power of two at or below
  \<open>|x|\<close>, and \<open>fl x\<close> is a multiple of the spacing within half a spacing of \<open>x\<close>, that
  is, a nearest number with 53 significant bits.
\<close>

lemma round_half_even_near: "\<bar>of_int (round_half_even y) - y\<bar> \<le> 1 / 2"
proof -
  have "of_int \<lfloor>y\<rfloor> \<le> y" "y < of_int \<lfloor>y\<rfloor> + 1"
    by linarith+
  then show ?thesis
    by (auto simp: round_half_even_def Let_def)
qed

lemma binade_bounds:
  "1 / 2 ^ k \<le> x \<Longrightarrow> x < 2 ^ (k + 1) \<Longrightarrow>
     2 powi (binade k x) \<le> x \<and> x < 2 powi (binade k x + 1)"
proof (induction k arbitrary: x)
  case 0
  then show ?case by simp
next
  case (Suc k)
  show ?case
  proof (cases "2 \<le> x")
    case True
    have "1 / 2 ^ k \<le> x / 2"
    proof -
      have "1 / 2 ^ k \<le> (1::real)" by (simp add: divide_le_eq)
      moreover have "1 \<le> x / 2" using True by simp
      ultimately show ?thesis by (rule order_trans)
    qed
    moreover have "x / 2 < 2 ^ (k + 1)"
      using Suc.prems(2) by simp
    ultimately have "2 powi (binade k (x / 2)) \<le> x / 2 \<and> x / 2 < 2 powi (binade k (x / 2) + 1)"
      by (rule Suc.IH)
    then show ?thesis
      using True by (simp add: power_int_add field_simps)
  next
    case False
    show ?thesis
    proof (cases "x < 1")
      case True
      have "1 / 2 ^ k \<le> 2 * x"
        using Suc.prems(1) by (simp add: field_simps)
      moreover have "2 * x < 2 ^ (k + 1)"
      proof -
        have "(2::real) \<le> 2 ^ (k + 1)" by simp
        with True show ?thesis by linarith
      qed
      ultimately have "2 powi (binade k (2 * x)) \<le> 2 * x \<and> 2 * x < 2 powi (binade k (2 * x) + 1)"
        by (rule Suc.IH)
      then show ?thesis
        using True by (simp add: power_int_add power_int_diff field_simps)
    next
      case False
      with \<open>\<not> 2 \<le> x\<close> show ?thesis by simp
    qed
  qed
qed

lemma ulp_powi: "ulp x = 2 powi (binade 1100 \<bar>x\<bar> - 52)"
  by (simp add: ulp_def Let_def power_int_def power_one_over)

lemma ulp_pos: "0 < ulp x"
  by (simp add: ulp_powi)

lemma fl_near: "\<bar>fl x - x\<bar> \<le> ulp x / 2"
proof (cases "x = 0")
  case True
  then show ?thesis
    using ulp_pos[of x] by (simp add: fl_def)
next
  case False
  let ?u = "ulp x"
  have u: "0 < ?u" by (rule ulp_pos)
  have "fl x - x = (of_int (round_half_even (x / ?u)) - x / ?u) * ?u"
    using False u by (simp add: fl_def field_simps)
  then have "\<bar>fl x - x\<bar> = \<bar>of_int (round_half_even (x / ?u)) - x / ?u\<bar> * ?u"
    using u by (simp add: abs_mult)
  also have "\<dots> \<le> (1 / 2) * ?u"
    using u round_half_even_near[of "x / ?u"] by (intro mult_right_mono) simp_all
  finally show ?thesis by simp
qed

lemma fl_multiple: "\<exists>m::int. fl x = of_int m * ulp x"
proof (cases "x = 0")
  case True
  then have "fl x = of_int 0 * ulp x" by (simp add: fl_def)
  then show ?thesis by blast
next
  case False
  then show ?thesis by (auto simp: fl_def)
qed

lemma ulp_binade:
  assumes "1 / 2 ^ 1100 \<le> \<bar>x\<bar>" and "\<bar>x\<bar> < 2 ^ 1101"
  shows "2 ^ 52 * ulp x \<le> \<bar>x\<bar> \<and> \<bar>x\<bar> < 2 ^ 53 * ulp x"
proof -
  have "2 powi (binade 1100 \<bar>x\<bar>) \<le> \<bar>x\<bar> \<and> \<bar>x\<bar> < 2 powi (binade 1100 \<bar>x\<bar> + 1)"
    using assms by (intro binade_bounds) simp_all
  moreover have "2 ^ 52 * ulp x = 2 powi (binade 1100 \<bar>x\<bar>)"
    by (simp add: ulp_powi power_int_diff)
  moreover have "2 ^ 53 * ulp x = 2 powi (binade 1100 \<bar>x\<bar> + 1)"
    by (simp add: ulp_powi power_int_diff power_int_add)
  ultimately show ?thesis by simp
qed

section \<open>The grid\<close>

text \<open>
  \<open>binade_step\<close> lets the simplifier run \<open>binade\<close> on a numeral fuel; with it the
  roundings below are computed inside the logic.
\<close>

lemma binade_step:
  "binade k x =
     (if k = 0 then 0
      else if 2 \<le> x then binade (k - 1) (x / 2) + 1
      else if x < 1 then binade (k - 1) (2 * x) - 1
      else 0)"
  by (cases k) simp_all

lemmas fl_eval = fl_def ulp_def round_half_even_def binade_step Let_def

text \<open>The five literals, as the fractions that the doubles are.\<close>

lemma fl_0_01: "fl (1 / 100) = 5764607523034235 / 576460752303423488"
  by (simp add: fl_eval)

lemma fl_0_99: "fl (99 / 100) = 4458563631096791 / 4503599627370496"
  by (simp add: fl_eval)

lemma fl_0_999: "fl (999 / 1000) = 8998192055486251 / 9007199254740992"
  by (simp add: fl_eval)

lemma fl_0_001: "fl (1 / 1000) = 1152921504606847 / 1152921504606846976"
  by (simp add: fl_eval)

lemma fl_0_0001: "fl (1 / 10000) = 7378697629483821 / 73786976294838206464"
  by (simp add: fl_eval)

text \<open>
  The quotients that give the lengths: \<open>98\<close> exactly, a little above \<open>9\<close> and a
  little above \<open>10\<close>. The second tier has 10 levels and the third 11.
\<close>

lemma tier_quotients:
  "fl (fl (fl (99 / 100) - fl (1 / 100)) / fl (1 / 100)) = 98
   \<and> fl (fl (fl (999 / 1000) - fl (99 / 100)) / fl (1 / 1000)) = 9 + 1 / 140737488355328
   \<and> fl (fl (1 - fl (999 / 1000)) / fl (1 / 10000)) = 10 + 5 / 562949953421312"
  unfolding fl_0_01 fl_0_99 fl_0_999 fl_0_001 fl_0_0001
  by (simp add: fl_eval)

lemma tier_1:
  "arange (fl (1 / 100)) (fl (99 / 100)) (fl (1 / 100)) =
    [5764607523034235 / 576460752303423488, 5764607523034235 / 288230376151711744, 1080863910568919 / 36028797018963968,
     5764607523034235 / 144115188075855872, 3602879701896397 / 72057594037927936, 8646911284551353 / 144115188075855872,
     5044031582654955 / 72057594037927936, 5764607523034235 / 72057594037927936, 3242591731706757 / 36028797018963968,
     7205759403792793 / 72057594037927936, 7926335344172073 / 72057594037927936, 1080863910568919 / 9007199254740992,
     1170935903116329 / 9007199254740992, 1261007895663739 / 9007199254740992, 1351079888211149 / 9007199254740992,
     5764607523034235 / 36028797018963968, 6124895493223875 / 36028797018963968, 6485183463413515 / 36028797018963968,
     3422735716801577 / 18014398509481984, 3602879701896397 / 18014398509481984, 3783023686991217 / 18014398509481984,
     7926335344172073 / 36028797018963968, 8286623314361713 / 36028797018963968, 8646911284551353 / 36028797018963968,
     1 / 4, 1170935903116329 / 4503599627370496, 607985949695017 / 2251799813685248,
     1261007895663739 / 4503599627370496, 326510972984361 / 1125899906842624, 5404319552844595 / 18014398509481984,
     5584463537939415 / 18014398509481984, 5764607523034235 / 18014398509481984, 5944751508129055 / 18014398509481984,
     6124895493223875 / 18014398509481984, 6305039478318695 / 18014398509481984, 6485183463413515 / 18014398509481984,
     3332663724254167 / 9007199254740992, 3422735716801577 / 9007199254740992, 3512807709348987 / 9007199254740992,
     3602879701896397 / 9007199254740992, 3692951694443807 / 9007199254740992, 3783023686991217 / 9007199254740992,
     7746191359077253 / 18014398509481984, 7926335344172073 / 18014398509481984, 8106479329266893 / 18014398509481984,
     8286623314361713 / 18014398509481984, 8466767299456533 / 18014398509481984, 8646911284551353 / 18014398509481984,
     2206763817411543 / 4503599627370496, 1 / 2, 2296835809958953 / 4503599627370496,
     1170935903116329 / 2251799813685248, 2386907802506363 / 4503599627370496, 607985949695017 / 1125899906842624,
     2476979795053773 / 4503599627370496, 1261007895663739 / 2251799813685248, 2567051787601183 / 4503599627370496,
     326510972984361 / 562949953421312, 5314247560297185 / 9007199254740992, 5404319552844595 / 9007199254740992,
     5494391545392005 / 9007199254740992, 5584463537939415 / 9007199254740992, 5674535530486825 / 9007199254740992,
     5764607523034235 / 9007199254740992, 5854679515581645 / 9007199254740992, 5944751508129055 / 9007199254740992,
     6034823500676465 / 9007199254740992, 6124895493223875 / 9007199254740992, 6214967485771285 / 9007199254740992,
     6305039478318695 / 9007199254740992, 6395111470866105 / 9007199254740992, 3242591731706757 / 4503599627370496,
     1643813863990231 / 2251799813685248, 3332663724254167 / 4503599627370496, 3 / 4,
     3422735716801577 / 4503599627370496, 1733885856537641 / 2251799813685248, 3512807709348987 / 4503599627370496,
     889460926405673 / 1125899906842624, 3602879701896397 / 4503599627370496, 1823957849085051 / 2251799813685248,
     3692951694443807 / 4503599627370496, 467248461339689 / 562949953421312, 3783023686991217 / 4503599627370496,
     7656119366529843 / 9007199254740992, 7746191359077253 / 9007199254740992, 7836263351624663 / 9007199254740992,
     7926335344172073 / 9007199254740992, 8016407336719483 / 9007199254740992, 8106479329266893 / 9007199254740992,
     8196551321814303 / 9007199254740992, 8286623314361713 / 9007199254740992, 8376695306909123 / 9007199254740992,
     8466767299456533 / 9007199254740992, 8556839292003943 / 9007199254740992, 8646911284551353 / 9007199254740992,
     4368491638549381 / 4503599627370496, 2206763817411543 / 2251799813685248]"
  unfolding fl_0_01 fl_0_99
  by (simp add: arange_def fl_eval upt_rec)

lemma tier_2:
  "arange (fl (99 / 100)) (fl (999 / 1000)) (fl (1 / 1000)) =
    [4458563631096791 / 4503599627370496, 8926134461448323 / 9007199254740992, 1116892707587883 / 1125899906842624,
     8944148859957805 / 9007199254740992, 4476578029606273 / 4503599627370496, 8962163258467287 / 9007199254740992,
     2242792614430507 / 2251799813685248, 8980177656976769 / 9007199254740992, 4494592428115755 / 4503599627370496,
     8998192055486251 / 9007199254740992]"
  unfolding fl_0_99 fl_0_999 fl_0_001
  by (simp add: arange_def fl_eval upt_rec)

lemma tier_3:
  "arange (fl (999 / 1000)) 1 (fl (1 / 10000)) =
    [8998192055486251 / 9007199254740992, 8999092775411725 / 9007199254740992, 8999993495337199 / 9007199254740992,
     9000894215262673 / 9007199254740992, 9001794935188147 / 9007199254740992, 9002695655113621 / 9007199254740992,
     9003596375039095 / 9007199254740992, 9004497094964569 / 9007199254740992, 9005397814890043 / 9007199254740992,
     9006298534815517 / 9007199254740992, 9007199254740991 / 9007199254740992]"
  unfolding fl_0_999 fl_0_0001
  by (simp add: arange_def fl_eval upt_rec)

lemma conf_levels_explicit:
  "conf_levels =
    [5764607523034235 / 576460752303423488, 5764607523034235 / 288230376151711744, 1080863910568919 / 36028797018963968,
     5764607523034235 / 144115188075855872, 3602879701896397 / 72057594037927936, 8646911284551353 / 144115188075855872,
     5044031582654955 / 72057594037927936, 5764607523034235 / 72057594037927936, 3242591731706757 / 36028797018963968,
     7205759403792793 / 72057594037927936, 7926335344172073 / 72057594037927936, 1080863910568919 / 9007199254740992,
     1170935903116329 / 9007199254740992, 1261007895663739 / 9007199254740992, 1351079888211149 / 9007199254740992,
     5764607523034235 / 36028797018963968, 6124895493223875 / 36028797018963968, 6485183463413515 / 36028797018963968,
     3422735716801577 / 18014398509481984, 3602879701896397 / 18014398509481984, 3783023686991217 / 18014398509481984,
     7926335344172073 / 36028797018963968, 8286623314361713 / 36028797018963968, 8646911284551353 / 36028797018963968,
     1 / 4, 1170935903116329 / 4503599627370496, 607985949695017 / 2251799813685248,
     1261007895663739 / 4503599627370496, 326510972984361 / 1125899906842624, 5404319552844595 / 18014398509481984,
     5584463537939415 / 18014398509481984, 5764607523034235 / 18014398509481984, 5944751508129055 / 18014398509481984,
     6124895493223875 / 18014398509481984, 6305039478318695 / 18014398509481984, 6485183463413515 / 18014398509481984,
     3332663724254167 / 9007199254740992, 3422735716801577 / 9007199254740992, 3512807709348987 / 9007199254740992,
     3602879701896397 / 9007199254740992, 3692951694443807 / 9007199254740992, 3783023686991217 / 9007199254740992,
     7746191359077253 / 18014398509481984, 7926335344172073 / 18014398509481984, 8106479329266893 / 18014398509481984,
     8286623314361713 / 18014398509481984, 8466767299456533 / 18014398509481984, 8646911284551353 / 18014398509481984,
     2206763817411543 / 4503599627370496, 1 / 2, 2296835809958953 / 4503599627370496,
     1170935903116329 / 2251799813685248, 2386907802506363 / 4503599627370496, 607985949695017 / 1125899906842624,
     2476979795053773 / 4503599627370496, 1261007895663739 / 2251799813685248, 2567051787601183 / 4503599627370496,
     326510972984361 / 562949953421312, 5314247560297185 / 9007199254740992, 5404319552844595 / 9007199254740992,
     5494391545392005 / 9007199254740992, 5584463537939415 / 9007199254740992, 5674535530486825 / 9007199254740992,
     5764607523034235 / 9007199254740992, 5854679515581645 / 9007199254740992, 5944751508129055 / 9007199254740992,
     6034823500676465 / 9007199254740992, 6124895493223875 / 9007199254740992, 6214967485771285 / 9007199254740992,
     6305039478318695 / 9007199254740992, 6395111470866105 / 9007199254740992, 3242591731706757 / 4503599627370496,
     1643813863990231 / 2251799813685248, 3332663724254167 / 4503599627370496, 3 / 4,
     3422735716801577 / 4503599627370496, 1733885856537641 / 2251799813685248, 3512807709348987 / 4503599627370496,
     889460926405673 / 1125899906842624, 3602879701896397 / 4503599627370496, 1823957849085051 / 2251799813685248,
     3692951694443807 / 4503599627370496, 467248461339689 / 562949953421312, 3783023686991217 / 4503599627370496,
     7656119366529843 / 9007199254740992, 7746191359077253 / 9007199254740992, 7836263351624663 / 9007199254740992,
     7926335344172073 / 9007199254740992, 8016407336719483 / 9007199254740992, 8106479329266893 / 9007199254740992,
     8196551321814303 / 9007199254740992, 8286623314361713 / 9007199254740992, 8376695306909123 / 9007199254740992,
     8466767299456533 / 9007199254740992, 8556839292003943 / 9007199254740992, 8646911284551353 / 9007199254740992,
     4368491638549381 / 4503599627370496, 2206763817411543 / 2251799813685248, 4458563631096791 / 4503599627370496,
     8926134461448323 / 9007199254740992, 1116892707587883 / 1125899906842624, 8944148859957805 / 9007199254740992,
     4476578029606273 / 4503599627370496, 8962163258467287 / 9007199254740992, 2242792614430507 / 2251799813685248,
     8980177656976769 / 9007199254740992, 4494592428115755 / 4503599627370496, 8998192055486251 / 9007199254740992,
     8998192055486251 / 9007199254740992, 8999092775411725 / 9007199254740992, 8999993495337199 / 9007199254740992,
     9000894215262673 / 9007199254740992, 9001794935188147 / 9007199254740992, 9002695655113621 / 9007199254740992,
     9003596375039095 / 9007199254740992, 9004497094964569 / 9007199254740992, 9005397814890043 / 9007199254740992,
     9006298534815517 / 9007199254740992, 9007199254740991 / 9007199254740992]"
  unfolding conf_levels_def tier_1 tier_2 tier_3 by simp

text \<open>
  The levels to four decimals, in units of \<open>0.0001\<close>: \<open>0.01\<close> to \<open>0.98\<close>, then
  \<open>0.990\<close> to \<open>0.999\<close>, then \<open>0.999\<close> again to \<open>0.9999\<close> and a last level that
  rounds to \<open>1.0000\<close>.
\<close>

lemma conf_levels_rounded:
  "map (\<lambda>cl. round (cl * 10000)) conf_levels =
     map (\<lambda>i. 100 * (1 + int i)) [0 ..< 98]
     @ map (\<lambda>i. 9900 + 10 * int i) [0 ..< 10]
     @ map (\<lambda>i. 9990 + int i) [0 ..< 11]"
  unfolding conf_levels_explicit by (simp add: round_def upt_rec)

lemma conf_levels_length: "length conf_levels = 119"
  unfolding conf_levels_explicit by simp

lemma conf_levels_nonempty: "conf_levels \<noteq> []"
  unfolding conf_levels_explicit by simp

lemma conf_levels_hd: "hd conf_levels = fl (1 / 100)"
  unfolding conf_levels_explicit fl_0_01 by simp

lemma conf_levels_last: "last conf_levels = 1 - 1 / 2 ^ 53"
  unfolding conf_levels_explicit by simp

lemma conf_levels_sorted: "sorted conf_levels"
  unfolding conf_levels_explicit by (simp only: sorted2 sorted1) simp

lemma conf_levels_range:
  assumes "cl \<in> set conf_levels"
  shows "hd conf_levels \<le> cl \<and> cl \<le> last conf_levels \<and> 0 < cl \<and> cl < 1"
proof -
  from assms obtain i where i: "i < length conf_levels" "conf_levels ! i = cl"
    by (auto simp: in_set_conv_nth)
  have "conf_levels ! 0 \<le> conf_levels ! i"
    using conf_levels_sorted i(1) by (intro sorted_nth_mono) simp_all
  moreover have "conf_levels ! i \<le> conf_levels ! (length conf_levels - 1)"
    using conf_levels_sorted i(1) by (intro sorted_nth_mono) simp_all
  ultimately have "hd conf_levels \<le> cl \<and> cl \<le> last conf_levels"
    using i(2) conf_levels_nonempty by (simp add: hd_conv_nth last_conv_nth)
  then show ?thesis
    by (simp add: conf_levels_hd conf_levels_last fl_0_01)
qed

section \<open>The sweep\<close>

text \<open>
  The loop leaves at the first level whose interval contains 1; when there is none, the
  loop variable holds the last level of a non-empty list.
\<close>

lemma sweep_find:
  "sweep ci cur cls =
     (case List.find (\<lambda>cl. contains_one (ci cl)) cls of
        Some cl \<Rightarrow> Some cl
      | None \<Rightarrow> (if cls = [] then cur else Some (last cls)))"
  by (induction cls arbitrary: cur) (auto split: option.splits)

lemma calculate_p_value_find:
  "calculate_p_value ppf n obs e =
     Inr (1 - (case List.find (\<lambda>cl. contains_one (ci_ote ppf n obs e cl)) conf_levels of
                 Some cl \<Rightarrow> cl | None \<Rightarrow> last conf_levels))"
  by (simp add: calculate_p_value_def sweep_find conf_levels_nonempty split: option.splits)

lemma calculate_p_value_in_grid:
  "\<exists>cl \<in> set conf_levels. calculate_p_value ppf n obs e = Inr (1 - cl)"
proof (cases "List.find (\<lambda>cl. contains_one (ci_ote ppf n obs e cl)) conf_levels")
  case None
  then show ?thesis
    using conf_levels_nonempty
    by (auto simp: calculate_p_value_find intro!: bexI[of _ "last conf_levels"])
next
  case (Some cl)
  then have "cl \<in> set conf_levels"
    by (auto simp: find_Some_iff)
  with Some show ?thesis
    by (auto simp: calculate_p_value_find)
qed

lemma calculate_p_value_exhausted:
  assumes "\<And>cl. cl \<in> set conf_levels \<Longrightarrow> \<not> contains_one (ci_ote ppf n obs e cl)"
  shows "calculate_p_value ppf n obs e = Inr (1 - last conf_levels)"
proof -
  have "List.find (\<lambda>cl. contains_one (ci_ote ppf n obs e cl)) conf_levels = None"
    using assms by (simp add: find_None_iff)
  then show ?thesis
    by (simp add: calculate_p_value_find)
qed

lemma calculate_p_value_immediate:
  assumes "contains_one (ci_ote ppf n obs e (hd conf_levels))"
  shows "calculate_p_value ppf n obs e = Inr (1 - hd conf_levels)"
proof -
  have c: "conf_levels = hd conf_levels # tl conf_levels"
    using conf_levels_nonempty by simp
  show ?thesis
    unfolding calculate_p_value_def by (subst c) (simp add: assms)
qed

text \<open>
  Whatever the input and the quantile function, the value returned is \<open>1 - cl\<close> for a
  level of the grid: it lies between 1 minus the last level and 1 minus the first, and
  is never 1.
\<close>

lemma calculate_p_value_range:
  "\<exists>r. calculate_p_value ppf n obs e = Inr r
       \<and> 1 - last conf_levels \<le> r \<and> r \<le> 1 - hd conf_levels \<and> r < 99 / 100 \<and> r \<noteq> 1"
proof -
  obtain cl where cl: "cl \<in> set conf_levels" "calculate_p_value ppf n obs e = Inr (1 - cl)"
    using calculate_p_value_in_grid by blast
  from cl(1) have "hd conf_levels \<le> cl \<and> cl \<le> last conf_levels \<and> 0 < cl \<and> cl < 1"
    by (rule conf_levels_range)
  moreover have "1 / 100 < hd conf_levels"
    by (simp add: conf_levels_hd fl_0_01)
  ultimately show ?thesis
    using cl(2) by auto
qed

text \<open>The intervals of the sample \<open>n = 1\<close>, \<open>o = 1/2\<close>, whose Beta shape is (1, 1).\<close>

lemma uniform_unit_interval:
  "ci_ote uniform_ppf 1 (1 / 2) e cl = ((1 - cl) / (2 * e), (1 + cl) / (2 * e))"
  by (simp add: ci_ote_def uniform_ppf_def Let_def)

lemma uniform_e1_never_contains:
  assumes "cl \<in> set conf_levels"
  shows "\<not> contains_one (ci_ote uniform_ppf 1 (1 / 2) 1 cl)"
proof -
  have "cl < 1"
    using conf_levels_range[OF assms] by simp
  then show ?thesis
    by (simp add: uniform_unit_interval contains_one_def)
qed

lemma uniform_e_half_always_contains:
  assumes "cl \<in> set conf_levels"
  shows "contains_one (ci_ote uniform_ppf 1 (1 / 2) (1 / 2) cl)"
proof -
  have "0 < cl"
    using conf_levels_range[OF assms] by simp
  then show ?thesis
    by (simp add: uniform_unit_interval contains_one_def)
qed

lemma uniform_e1_p_value: "calculate_p_value uniform_ppf 1 (1 / 2) 1 = Inr (1 / 2 ^ 53)"
  using calculate_p_value_exhausted[of uniform_ppf 1 "1 / 2" 1] uniform_e1_never_contains
  by (simp add: conf_levels_last)

text \<open>
  C1, as the code has it. The grid is the three tiers of \<^verbatim>\<open>np.arange\<close>, with step
  \<open>0.01\<close> from \<open>0.01\<close>, step \<open>0.001\<close> from \<open>0.99\<close> and step \<open>0.0001\<close> from \<open>0.999\<close>; it
  is in increasing order, starts at the double \<open>0.01\<close> and stays below 1.
  \<open>calculate_p_value\<close> returns \<open>1 - cl\<close> for the first level \<open>cl\<close> of the grid whose interval
  contains 1 (\<open>low < 1 < high\<close>), and \<open>1 - cl\<close> for the last level of the grid when no
  interval contains 1.
\<close>

theorem calculate_p_value_first_containing:
  "conf_levels =
     arange (fl (1 / 100)) (fl (99 / 100)) (fl (1 / 100))
     @ arange (fl (99 / 100)) (fl (999 / 1000)) (fl (1 / 1000))
     @ arange (fl (999 / 1000)) 1 (fl (1 / 10000))
   \<and> sorted conf_levels
   \<and> hd conf_levels = fl (1 / 100)
   \<and> list_all (\<lambda>cl. 0 < cl \<and> cl < 1) conf_levels
   \<and> calculate_p_value ppf n obs e =
       Inr (1 - (case List.find (\<lambda>cl. contains_one (ci_ote ppf n obs e cl)) conf_levels of
                   Some cl \<Rightarrow> cl | None \<Rightarrow> last conf_levels))"
  using conf_levels_def conf_levels_sorted conf_levels_hd conf_levels_range
    calculate_p_value_find
  by (simp add: list_all_iff)

text \<open>
  C1 as stated fails. For \<open>n = 1\<close>, \<open>o = 1/2\<close>, \<open>e = 1\<close> the interval at the first level
  \<open>0.01\<close> is \<open>(0.495, 0.505)\<close> and excludes 1, so the claim has the sweep stop there
  and return \<open>1 - 0.01\<close>; the sweep runs to the end of the grid and returns 1 minus the
  last level, which is \<open>2^-53\<close>.
\<close>

theorem calculate_p_value_first_excluding_counterexample:
  "valid_obs 1 (1 / 2) 1
   \<and> excludes_one (ci_ote uniform_ppf 1 (1 / 2) 1 (hd conf_levels))
   \<and> calculate_p_value uniform_ppf 1 (1 / 2) 1 = Inr (1 / 2 ^ 53)
   \<and> calculate_p_value uniform_ppf 1 (1 / 2) 1 \<noteq> Inr (1 - hd conf_levels)"
  by (simp add: valid_obs_def conf_levels_hd fl_0_01 excludes_one_def contains_one_def
      uniform_unit_interval uniform_e1_p_value)

text \<open>
  C2, as the code has it. When every interval swept excludes 1 (none contains 1), the
  sweep reaches the end of the grid and \<open>calculate_p_value\<close> returns, with no error,
  \<open>1 - cl\<close> for the last level of the grid.
\<close>

theorem calculate_p_value_floor:
  assumes "list_all excludes_one (intervals_swept ppf n obs e)"
  shows "calculate_p_value ppf n obs e = Inr (1 - last conf_levels)"
proof -
  have "\<not> contains_one (ci_ote ppf n obs e cl)" if "cl \<in> set conf_levels" for cl
    using assms that by (simp add: intervals_swept_def list_all_iff excludes_one_def)
  then show ?thesis
    by (rule calculate_p_value_exhausted)
qed

theorem calculate_p_value_floor_witness:
  "list_all excludes_one (intervals_swept uniform_ppf 1 (1 / 2) 1)
   \<and> calculate_p_value uniform_ppf 1 (1 / 2) 1 = Inr (1 - last conf_levels)"
proof -
  have h: "list_all excludes_one (intervals_swept uniform_ppf 1 (1 / 2) 1)"
    using uniform_e1_never_contains
    by (simp add: intervals_swept_def list_all_iff excludes_one_def)
  show ?thesis
    using h calculate_p_value_floor[OF h] by simp
qed

text \<open>
  C2 as stated fails. For \<open>n = 1\<close>, \<open>o = 1/2\<close>, \<open>e = 1/2\<close> the interval at level \<open>cl\<close>
  is \<open>(1 - cl, 1 + cl)\<close>: every interval swept contains 1 and none excludes it. The
  sweep stops at the first level, the double \<open>0.01\<close>, and returns 1 minus that level, not
  the value at the last level.
\<close>

theorem calculate_p_value_floor_counterexample:
  "valid_obs 1 (1 / 2) (1 / 2)
   \<and> list_all contains_one (intervals_swept uniform_ppf 1 (1 / 2) (1 / 2))
   \<and> calculate_p_value uniform_ppf 1 (1 / 2) (1 / 2) = Inr (1 - fl (1 / 100))
   \<and> calculate_p_value uniform_ppf 1 (1 / 2) (1 / 2) \<noteq> Inr (1 - last conf_levels)"
proof -
  have "list_all contains_one (intervals_swept uniform_ppf 1 (1 / 2) (1 / 2))"
    using uniform_e_half_always_contains by (simp add: intervals_swept_def list_all_iff)
  moreover have "hd conf_levels \<in> set conf_levels"
    using conf_levels_nonempty by simp
  then have "contains_one (ci_ote uniform_ppf 1 (1 / 2) (1 / 2) (hd conf_levels))"
    by (rule uniform_e_half_always_contains)
  then have "calculate_p_value uniform_ppf 1 (1 / 2) (1 / 2) = Inr (1 - hd conf_levels)"
    by (rule calculate_p_value_immediate)
  ultimately show ?thesis
    by (simp add: valid_obs_def conf_levels_last conf_levels_hd fl_0_01)
qed

text \<open>
  C10 at the sample \<open>n = 1\<close>, \<open>o = 1/2\<close>, \<open>e = 1\<close>. No interval swept contains 1, the
  sweep ends at the last level \<open>0.9999999999999999\<close>, and the value returned is
  \<open>2^-53\<close>, about \<open>1.1e-16\<close>, far below \<open>0.0001\<close>. The third tier was written to end
  at \<open>0.9999\<close>; the rounded quotient \<open>10.000000000000009\<close> gives it an eleventh level
  (\<open>tier_quotients\<close>, \<open>conf_levels_rounded\<close>). The rest of the claim holds:
  \<open>calculate_p_value_range\<close>.
\<close>

theorem calculate_p_value_floor_evaluation:
  "valid_obs 1 (1 / 2) 1
   \<and> calculate_p_value uniform_ppf 1 (1 / 2) 1 = Inr (1 / 2 ^ 53)
   \<and> (1 / 2 ^ 53 :: real) < 1 / 10000"
  by (simp add: valid_obs_def uniform_e1_p_value)

section \<open>The interval\<close>

text \<open>
  C4. For valid \<open>(n, o, e)\<close> and a confidence level in \<open>(0, 1)\<close>: with \<open>o = 0\<close> the lower
  bound of \<open>ci_ote\<close> is 0, and with \<open>o = n\<close> the upper bound is \<open>n / e\<close>.
\<close>

theorem ci_ote_edge:
  assumes "valid_obs n obs e" and "valid_cl cl"
  shows "(obs = 0 \<longrightarrow> fst (ci_ote ppf n obs e cl) = 0)
       \<and> (obs = real_of_int n \<longrightarrow> snd (ci_ote ppf n obs e cl) = real_of_int n / e)"
  by (simp add: ci_ote_def Let_def)

theorem ci_ote_edge_witness:
  "valid_obs 10 0 2 \<and> valid_cl (95 / 100) \<and> fst (ci_ote uniform_ppf 10 0 2 (95 / 100)) = 0
   \<and> valid_obs 10 10 5 \<and> snd (ci_ote uniform_ppf 10 10 5 (95 / 100)) = 2"
proof -
  have v1: "valid_obs 10 0 2" and v2: "valid_obs 10 10 5" and c: "valid_cl (95 / 100)"
    by (simp_all add: valid_obs_def valid_cl_def)
  show ?thesis
    using ci_ote_edge[OF v1 c, of uniform_ppf] ci_ote_edge[OF v2 c, of uniform_ppf] v1 v2 c
    by simp
qed

lemma quantile_monoD:
  "quantile_mono ppf a b \<Longrightarrow> 0 < q1 \<Longrightarrow> q1 \<le> q2 \<Longrightarrow> q2 < 1 \<Longrightarrow> ppf a b q1 \<le> ppf a b q2"
  by (simp add: quantile_mono_def)

lemma uniform_ppf_mono: "quantile_mono uniform_ppf a b"
  by (simp add: quantile_mono_def uniform_ppf_def)

lemma ci_ote_lower_antimono:
  assumes v: "valid_obs n obs e"
    and m: "quantile_mono ppf (1 / 2 + obs) (1 / 2 + real_of_int n - obs)"
    and c: "0 < cl1" "cl1 \<le> cl2" "cl2 < 1"
  shows "fst (ci_ote ppf n obs e cl2) \<le> fst (ci_ote ppf n obs e cl1)"
proof -
  have "ppf (1 / 2 + obs) (1 / 2 + real_of_int n - obs) ((1 - cl2) / 2)
        \<le> ppf (1 / 2 + obs) (1 / 2 + real_of_int n - obs) ((1 - cl1) / 2)"
    using c by (intro quantile_monoD[OF m]) simp_all
  moreover have "0 \<le> real_of_int n" "0 < e"
    using v by (simp_all add: valid_obs_def)
  ultimately show ?thesis
    by (simp add: ci_ote_def Let_def divide_right_mono mult_right_mono)
qed

lemma ci_ote_upper_mono:
  assumes v: "valid_obs n obs e"
    and m: "quantile_mono ppf (1 / 2 + obs) (1 / 2 + real_of_int n - obs)"
    and c: "0 < cl1" "cl1 \<le> cl2" "cl2 < 1"
  shows "snd (ci_ote ppf n obs e cl1) \<le> snd (ci_ote ppf n obs e cl2)"
proof -
  have "ppf (1 / 2 + obs) (1 / 2 + real_of_int n - obs) ((1 + cl1) / 2)
        \<le> ppf (1 / 2 + obs) (1 / 2 + real_of_int n - obs) ((1 + cl2) / 2)"
    using c by (intro quantile_monoD[OF m]) simp_all
  moreover have "0 \<le> real_of_int n" "0 < e"
    using v by (simp_all add: valid_obs_def)
  ultimately show ?thesis
    by (simp add: ci_ote_def Let_def divide_right_mono mult_right_mono)
qed

text \<open>
  C5. For valid \<open>(n, o, e)\<close> and levels \<open>0 < cl1 < cl2 < 1\<close>, the interval at \<open>cl2\<close>
  contains the interval at \<open>cl1\<close>: its lower bound is at most, and its upper bound at
  least, the bound at \<open>cl1\<close>. The quantile function of the sample's Beta distribution is
  taken to be non-decreasing, as every quantile function is.
\<close>

theorem ci_ote_nested:
  assumes "valid_obs n obs e"
    and "quantile_mono ppf (1 / 2 + obs) (1 / 2 + real_of_int n - obs)"
    and "0 < cl1" and "cl1 < cl2" and "cl2 < 1"
  shows "fst (ci_ote ppf n obs e cl2) \<le> fst (ci_ote ppf n obs e cl1)
       \<and> snd (ci_ote ppf n obs e cl1) \<le> snd (ci_ote ppf n obs e cl2)"
  using assms ci_ote_lower_antimono[of n obs e ppf cl1 cl2]
    ci_ote_upper_mono[of n obs e ppf cl1 cl2]
  by simp

theorem ci_ote_nested_witness:
  "valid_obs 1 (1 / 2) (1 / 2)
   \<and> quantile_mono uniform_ppf (1 / 2 + 1 / 2) (1 / 2 + real_of_int 1 - 1 / 2)
   \<and> (0::real) < 90 / 100 \<and> (90 / 100 :: real) < 95 / 100 \<and> (95 / 100 :: real) < 1
   \<and> fst (ci_ote uniform_ppf 1 (1 / 2) (1 / 2) (95 / 100))
       \<le> fst (ci_ote uniform_ppf 1 (1 / 2) (1 / 2) (90 / 100))
   \<and> snd (ci_ote uniform_ppf 1 (1 / 2) (1 / 2) (90 / 100))
       \<le> snd (ci_ote uniform_ppf 1 (1 / 2) (1 / 2) (95 / 100))"
proof -
  have v: "valid_obs 1 (1 / 2) (1 / 2)"
    by (simp add: valid_obs_def)
  have m: "quantile_mono uniform_ppf (1 / 2 + 1 / 2) (1 / 2 + real_of_int 1 - 1 / 2)"
    by (rule uniform_ppf_mono)
  have c: "(0::real) < 90 / 100" "(90 / 100 :: real) < 95 / 100" "(95 / 100 :: real) < 1"
    by simp_all
  show ?thesis
    using v m c ci_ote_nested[OF v m c] by blast
qed

section \<open>Interval and p-value\<close>

lemma ci_ote_contains_mono:
  assumes v: "valid_obs n obs e"
    and m: "quantile_mono ppf (1 / 2 + obs) (1 / 2 + real_of_int n - obs)"
    and c: "0 < cl1" "cl1 \<le> cl2" "cl2 < 1"
    and k: "contains_one (ci_ote ppf n obs e cl1)"
  shows "contains_one (ci_ote ppf n obs e cl2)"
  using ci_ote_lower_antimono[OF v m c] ci_ote_upper_mono[OF v m c] k
  by (simp add: contains_one_def)

text \<open>In an increasing list, what lies below the first hit is not a hit.\<close>

lemma find_sorted_before:
  fixes xs :: "real list"
  assumes s: "sorted xs"
    and f: "List.find P xs = Some c"
    and x: "x \<in> set xs" "x < c"
  shows "\<not> P x"
proof -
  from f obtain i where i: "i < length xs" "xs ! i = c" "\<forall>j<i. \<not> P (xs ! j)"
    by (auto simp: find_Some_iff)
  from x(1) obtain j where j: "j < length xs" "xs ! j = x"
    by (auto simp: in_set_conv_nth)
  have "j < i"
  proof (rule ccontr)
    assume "\<not> j < i"
    then have "i \<le> j" by simp
    then have "xs ! i \<le> xs ! j"
      using j(1) by (intro sorted_nth_mono[OF s])
    with i(2) j(2) x(2) show False by simp
  qed
  with i(3) j(2) show ?thesis by auto
qed

text \<open>
  The sample \<open>n = 1\<close>, \<open>o = 1/2\<close>, \<open>e = 0.2975\<close>: the interval at level \<open>cl\<close>
  contains 1 exactly when \<open>cl > 0.405\<close>. The sweep stops at level number 40, the
  double \<open>0.41000000000000003\<close>; level number 29 is the double \<open>0.3\<close>.
\<close>

lemma conf_levels_29: "conf_levels ! 29 = 5404319552844595 / 18014398509481984"
  unfolding conf_levels_explicit by simp

lemma conf_levels_40: "conf_levels ! 40 = 3692951694443807 / 9007199254740992"
  unfolding conf_levels_explicit by simp

lemma uniform_e02975_p_value:
  "calculate_p_value uniform_ppf 1 (1 / 2) (119 / 400) = Inr (1 - conf_levels ! 40)"
  unfolding conf_levels_40
  by (simp add: calculate_p_value_def conf_levels_explicit uniform_unit_interval
      contains_one_def)

lemma level_29_in_grid: "1 - (1 - conf_levels ! 29) \<in> set conf_levels"
  by (simp add: conf_levels_length)

text \<open>
  C9. For valid \<open>(n, o, e)\<close>, a non-decreasing quantile function and \<open>p\<close> with \<open>1 - p\<close> a
  level of the grid, let \<open>pv\<close> be the value \<open>calculate_p_value\<close> returns. If the interval
  at level \<open>1 - p\<close> excludes 1 then \<open>pv \<le> p\<close>; and if \<open>pv < p\<close> then the interval at
  level \<open>1 - p\<close> excludes 1. The two sides of the duality can differ only at \<open>p = pv\<close>,
  the one grid point at which the sweep stopped.
\<close>

theorem interval_p_value_duality:
  assumes v: "valid_obs n obs e"
    and m: "quantile_mono ppf (1 / 2 + obs) (1 / 2 + real_of_int n - obs)"
    and g: "1 - p \<in> set conf_levels"
    and r: "calculate_p_value ppf n obs e = Inr pv"
  shows "(excludes_one (ci_ote ppf n obs e (1 - p)) \<longrightarrow> pv \<le> p)
       \<and> (pv < p \<longrightarrow> excludes_one (ci_ote ppf n obs e (1 - p)))"
proof (cases "List.find (\<lambda>cl. contains_one (ci_ote ppf n obs e cl)) conf_levels")
  case None
  then have "pv = 1 - last conf_levels"
    using r by (simp add: calculate_p_value_find)
  moreover have "1 - p \<le> last conf_levels"
    using conf_levels_range[OF g] by simp
  moreover have "excludes_one (ci_ote ppf n obs e (1 - p))"
    using None g by (simp add: find_None_iff excludes_one_def)
  ultimately show ?thesis by simp
next
  case (Some c)
  then have pv: "pv = 1 - c"
    using r by (simp add: calculate_p_value_find)
  from Some have c: "c \<in> set conf_levels" "contains_one (ci_ote ppf n obs e c)"
    by (auto simp: find_Some_iff)
  have c0: "0 < c"
    using conf_levels_range[OF c(1)] by simp
  have p1: "1 - p < 1"
    using conf_levels_range[OF g] by simp
  have "pv \<le> p" if "excludes_one (ci_ote ppf n obs e (1 - p))"
  proof (rule ccontr)
    assume "\<not> pv \<le> p"
    then have "c \<le> 1 - p"
      using pv by simp
    then have "contains_one (ci_ote ppf n obs e (1 - p))"
      using ci_ote_contains_mono[OF v m c0 _ p1 c(2)] by simp
    with that show False
      by (simp add: excludes_one_def)
  qed
  moreover have "excludes_one (ci_ote ppf n obs e (1 - p))" if "pv < p"
  proof -
    from that pv have "1 - p < c" by simp
    then show ?thesis
      unfolding excludes_one_def
      using find_sorted_before[OF conf_levels_sorted Some g] by simp
  qed
  ultimately show ?thesis by blast
qed

text \<open>
  At \<open>p = 1 - (level 29)\<close>, about \<open>0.7\<close>, the p-value \<open>1 - (level 40)\<close>, about
  \<open>0.59\<close>, is below \<open>p\<close> and the interval of level 29 excludes 1.
\<close>

theorem interval_p_value_duality_witness:
  "valid_obs 1 (1 / 2) (119 / 400)
   \<and> quantile_mono uniform_ppf (1 / 2 + 1 / 2) (1 / 2 + real_of_int 1 - 1 / 2)
   \<and> 1 - (1 - conf_levels ! 29) \<in> set conf_levels
   \<and> calculate_p_value uniform_ppf 1 (1 / 2) (119 / 400) = Inr (1 - conf_levels ! 40)
   \<and> excludes_one (ci_ote uniform_ppf 1 (1 / 2) (119 / 400) (1 - (1 - conf_levels ! 29)))
   \<and> 1 - conf_levels ! 40 < 1 - conf_levels ! 29"
proof -
  have v: "valid_obs 1 (1 / 2) (119 / 400)"
    by (simp add: valid_obs_def)
  have m: "quantile_mono uniform_ppf (1 / 2 + 1 / 2) (1 / 2 + real_of_int 1 - 1 / 2)"
    by (rule uniform_ppf_mono)
  have lt: "1 - conf_levels ! 40 < 1 - conf_levels ! 29"
    by (simp add: conf_levels_29 conf_levels_40)
  show ?thesis
    using v m level_29_in_grid uniform_e02975_p_value lt
      interval_p_value_duality[OF v m level_29_in_grid uniform_e02975_p_value]
    by blast
qed

text \<open>
  At \<open>p = pv\<close> itself the two sides differ for this sample: \<open>pv \<le> p\<close> holds, and the
  interval at level 40, where the sweep stopped, contains 1.
\<close>

lemma duality_boundary:
  "conf_levels ! 40 \<in> set conf_levels
   \<and> calculate_p_value uniform_ppf 1 (1 / 2) (119 / 400) = Inr (1 - conf_levels ! 40)
   \<and> contains_one (ci_ote uniform_ppf 1 (1 / 2) (119 / 400) (conf_levels ! 40))"
  by (simp add: uniform_e02975_p_value conf_levels_length)
    (simp add: conf_levels_40 uniform_unit_interval contains_one_def)

section \<open>The highest-density interval\<close>

text \<open>
  C7, as the code has it. \<open>calculate_beta_hdi\<close> and \<open>ci_ote_hdi\<close> have no failure: for
  every minimizer, and however its run ended, they return the interval built from the
  iterate the minimizer hands back.
\<close>

theorem hdi_never_fails:
  "calculate_beta_hdi ppf fmin a b p =
     Inr (ppf a b (xopt (fmin (interval_width ppf a b p) (1 - p) (1 / 10000))),
          ppf a b (p + xopt (fmin (interval_width ppf a b p) (1 - p) (1 / 10000))))
   \<and> (\<exists>lo hi. ci_ote_hdi ppf fmin n obs e cl = Inr (lo, hi))"
  by (simp add: calculate_beta_hdi_def ci_ote_hdi_def Let_def)

text \<open>
  C7 as stated fails. A minimizer that stops at its iteration cap (\<open>warnflag = 2\<close>)
  without meeting the tolerance still yields an interval: for the shape (1, 1) and mass
  \<open>0.95\<close> the interval \<open>(0.05, 1)\<close> of the start value, and \<open>(0.1, 2)\<close> after
  rescaling with \<open>n = 1\<close>, \<open>e = 1/2\<close>.
\<close>

theorem hdi_nonconvergence_counterexample:
  "warnflag (capped_fmin (interval_width uniform_ppf 1 1 (95 / 100)) (1 - 95 / 100) (1 / 10000)) = 2
   \<and> calculate_beta_hdi uniform_ppf capped_fmin 1 1 (95 / 100) = Inr (5 / 100, 1)
   \<and> ci_ote_hdi uniform_ppf capped_fmin 1 (1 / 2) (1 / 2) (95 / 100) = Inr (1 / 10, 2)"
  by (simp add: calculate_beta_hdi_def ci_ote_hdi_def Let_def capped_fmin_def uniform_ppf_def)

section \<open>The running minimum and the return to frame order\<close>

lemma length_cummin: "length (cummin xs) = length xs"
  by (induction xs) simp_all

lemma cummin_nth:
  "k < length xs \<Longrightarrow> cummin xs ! k = Min (set (take (Suc k) xs))"
proof (induction xs arbitrary: k)
  case Nil
  then show ?case by simp
next
  case (Cons x xs)
  show ?case
  proof (cases k)
    case 0
    then show ?thesis by simp
  next
    case (Suc k')
    with Cons.prems have k': "k' < length xs" by simp
    then have ne: "set (take (Suc k') xs) \<noteq> {}"
      by (cases xs) auto
    have "cummin (x # xs) ! k = min x (cummin xs ! k')"
      using Suc k' by (simp add: length_cummin)
    also have "\<dots> = min x (Min (set (take (Suc k') xs)))"
      using Cons.IH[OF k'] by simp
    also have "\<dots> = Min (insert x (set (take (Suc k') xs)))"
      using ne by simp
    finally show ?thesis
      using Suc by simp
  qed
qed

text \<open>Sorting labelled values by label puts the value labelled \<open>i\<close> at position \<open>i\<close>.\<close>

lemma sort_index_labels:
  fixes zs :: "(nat \<times> 'a) list"
  assumes d: "distinct (map fst zs)" and s: "set (map fst zs) = {0 ..< length zs}"
  shows "map fst (sort_key fst zs) = [0 ..< length zs]"
proof (rule sorted_distinct_set_unique)
  show "sorted (map fst (sort_key fst zs))"
    by (rule sorted_sort_key)
  show "distinct (map fst (sort_key fst zs))"
    using d by (simp add: distinct_map)
  show "sorted [0 ..< length zs]" and "distinct [0 ..< length zs]"
    by simp_all
  show "set (map fst (sort_key fst zs)) = set [0 ..< length zs]"
    using s by simp
qed

lemma sort_index_nth:
  fixes zs :: "(nat \<times> 'a) list"
  assumes d: "distinct (map fst zs)" and s: "set (map fst zs) = {0 ..< length zs}"
    and m: "(i, v) \<in> set zs"
  shows "map snd (sort_key fst zs) ! i = v"
proof -
  have i: "i < length zs"
    using m s by force
  have "map fst (sort_key fst zs) ! i = [0 ..< length zs] ! i"
    by (simp only: sort_index_labels[OF d s])
  then have f: "fst (sort_key fst zs ! i) = i"
    using i by simp
  have "sort_key fst zs ! i \<in> set zs"
    using i by (metis length_sort nth_mem set_sort)
  moreover have "inj_on fst (set zs)"
    using d by (simp add: distinct_map)
  ultimately have "sort_key fst zs ! i = (i, v)"
    using m f inj_onD[of fst "set zs" "sort_key fst zs ! i" "(i, v)"] by simp
  then show ?thesis
    using i by simp
qed

section \<open>Average ranks\<close>

lemma count_below_mono:
  fixes p q :: real
  shows "p < q \<Longrightarrow>
    length (filter (\<lambda>x. x < p) xs) + length (filter (\<lambda>x. x = p) xs)
      \<le> length (filter (\<lambda>x. x < q) xs)"
  by (induction xs) auto

lemma count_equal_pos: "p \<in> set xs \<Longrightarrow> 1 \<le> length (filter (\<lambda>x. x = p) xs)"
  by (induction xs) auto

lemma rank_arith_pos:
  fixes l e :: real
  shows "0 \<le> l \<Longrightarrow> 0 \<le> e \<Longrightarrow> 0 < l + (e + 1) / 2"
  by (simp add: add_nonneg_pos)

lemma rank_arith_less:
  fixes l e l' e' :: real
  shows "l + e \<le> l' \<Longrightarrow> 1 \<le> e' \<Longrightarrow> 0 \<le> e \<Longrightarrow> l + (e + 1) / 2 < l' + (e' + 1) / 2"
  by (simp add: field_simps)

lemma average_rank_pos: "0 < average_rank ps p"
  unfolding average_rank_def by (rule rank_arith_pos) simp_all

lemma average_rank_strict_mono:
  assumes "p < q" and "q \<in> set ps"
  shows "average_rank ps p < average_rank ps q"
proof -
  let ?L = "\<lambda>v. real (length (filter (\<lambda>x. x < v) ps))"
  let ?E = "\<lambda>v. real (length (filter (\<lambda>x. x = v) ps))"
  have "?L p + ?E p \<le> ?L q"
    using count_below_mono[OF assms(1), of ps] by (simp flip: of_nat_add)
  moreover have "1 \<le> ?E q"
    using count_equal_pos[OF assms(2)] by simp
  moreover have "0 \<le> ?E p"
    by simp
  ultimately show ?thesis
    unfolding average_rank_def by (rule rank_arith_less)
qed

lemma average_rank_le_imp_le:
  assumes "average_rank ps p \<le> average_rank ps q" and "p \<in> set ps"
  shows "p \<le> q"
proof (rule ccontr)
  assume "\<not> p \<le> q"
  then have "q < p" by simp
  then have "average_rank ps q < average_rank ps p"
    using assms(2) by (rule average_rank_strict_mono)
  with assms(1) show False by simp
qed

lemma average_rank_replicate: "average_rank (replicate m p) p = (real m + 1) / 2"
  by (simp add: average_rank_def)

section \<open>The frame and its sorted arrangements\<close>

text \<open>Row \<open>i\<close> of the frame has label \<open>i\<close>, the \<open>i\<close>-th p-value and its rank.\<close>

lemma length_to_frame: "length (to_frame ps) = length ps"
  by (simp add: to_frame_def)

lemma to_frame_nth:
  "i < length ps \<Longrightarrow>
     to_frame ps ! i = \<lparr>idx = i, p_val = ps ! i, rank = average_rank ps (ps ! i)\<rparr>"
  by (simp add: to_frame_def nth_enumerate_eq)

lemma map_idx_to_frame: "map idx (to_frame ps) = [0 ..< length ps]"
  by (rule nth_equalityI) (simp_all add: length_to_frame to_frame_nth)

lemma map_p_val_to_frame: "map p_val (to_frame ps) = ps"
  by (rule nth_equalityI) (simp_all add: length_to_frame to_frame_nth)

lemma to_frame_row:
  assumes "r \<in> set (to_frame ps)"
  shows "idx r < length ps \<and> p_val r = ps ! idx r \<and> rank r = average_rank ps (p_val r)"
proof -
  from assms obtain i where "i < length ps" "to_frame ps ! i = r"
    by (auto simp: in_set_conv_nth length_to_frame)
  then show ?thesis
    by (auto simp: to_frame_nth)
qed

lemma sort_values_rank_descending:
  "rank_descending ps (sort_key (\<lambda>r. - rank r) (to_frame ps))"
  by (simp add: rank_descending_def sorted_sort_key)

lemma rank_descending_length: "rank_descending ps df \<Longrightarrow> length df = length ps"
  using mset_eq_length[of df "to_frame ps"] by (simp add: rank_descending_def length_to_frame)

lemma rank_descending_set: "rank_descending ps df \<Longrightarrow> set df = set (to_frame ps)"
  using mset_eq_setD[of df "to_frame ps"] by (simp add: rank_descending_def)

lemma rank_descending_row:
  "rank_descending ps df \<Longrightarrow> r \<in> set df \<Longrightarrow>
     idx r < length ps \<and> p_val r = ps ! idx r \<and> rank r = average_rank ps (p_val r)"
  by (simp add: rank_descending_set to_frame_row)

lemma rank_descending_nth:
  assumes df: "rank_descending ps df" and "j \<le> k" and "k < length ps"
  shows "rank (df ! k) \<le> rank (df ! j)"
proof -
  have len: "length df = length ps"
    using df by (rule rank_descending_length)
  have "sorted (map (\<lambda>r. - rank r) df)"
    using df by (simp add: rank_descending_def)
  then have "map (\<lambda>r. - rank r) df ! j \<le> map (\<lambda>r. - rank r) df ! k"
    using assms(2,3) by (intro sorted_nth_mono) (simp_all add: len)
  then show ?thesis
    using assms(2,3) by (simp add: len)
qed

lemma rank_descending_distinct_idx:
  assumes "rank_descending ps df"
  shows "distinct (map idx df)"
proof -
  have "mset (map idx df) = mset (map idx (to_frame ps))"
    using assms by (simp add: rank_descending_def)
  moreover have "distinct (map idx (to_frame ps))"
    by (simp add: map_idx_to_frame)
  ultimately show ?thesis
    using mset_eq_imp_distinct_iff by blast
qed

lemma rank_descending_set_idx:
  assumes "rank_descending ps df"
  shows "set (map idx df) = {0 ..< length ps}"
proof -
  have "set (map idx df) = set (map idx (to_frame ps))"
    using assms by (simp add: rank_descending_set)
  then show ?thesis
    by (simp only: map_idx_to_frame set_upt)
qed

lemma rank_descending_p_vals:
  assumes "rank_descending ps df"
  shows "p_val ` set df = set ps"
proof -
  have "set (map p_val (to_frame ps)) = set ps"
    by (simp only: map_p_val_to_frame)
  then show ?thesis
    using assms by (simp add: rank_descending_set)
qed

text \<open>
  In a frame sorted by descending rank, the rows down to position \<open>k\<close> are, up to rows
  that repeat the p-value of row \<open>k\<close>, the rows whose p-value is at least that of row
  \<open>k\<close>. Both collections give the same set of quotients.
\<close>

lemma prefix_values:
  assumes df: "rank_descending ps df" and k: "k < length ps"
  shows "(\<lambda>r. p_val r * c / rank r) ` set (take (Suc k) df)
       = (\<lambda>q. q * c / average_rank ps q) ` {q \<in> set ps. p_val (df ! k) \<le> q}"
    (is "?g ` ?A = ?f ` ?B")
proof (intro set_eqI iffI)
  have len: "length df = length ps"
    using df by (rule rank_descending_length)
  have rk: "df ! k \<in> set df"
    using k len by simp
  note row = rank_descending_row[OF df]
  note pvs = rank_descending_p_vals[OF df]
  {
    fix v assume "v \<in> ?g ` ?A"
    then obtain r where r: "r \<in> ?A" "v = ?g r" by blast
    then obtain i where i: "i < length (take (Suc k) df)" "take (Suc k) df ! i = r"
      by (auto simp: in_set_conv_nth)
    then have j: "i \<le> k" "df ! i = r"
      by simp_all
    have rs: "r \<in> set df"
      using r(1) by (rule in_set_takeD)
    have "rank (df ! k) \<le> rank r"
      using rank_descending_nth[OF df j(1) k] j(2) by simp
    then have "average_rank ps (p_val (df ! k)) \<le> average_rank ps (p_val r)"
      using row[OF rs] row[OF rk] by simp
    moreover have "p_val (df ! k) \<in> set ps"
      using rk pvs by blast
    ultimately have "p_val (df ! k) \<le> p_val r"
      by (rule average_rank_le_imp_le)
    moreover have "p_val r \<in> set ps"
      using rs pvs by blast
    moreover have "v = ?f (p_val r)"
      using r(2) row[OF rs] by simp
    ultimately show "v \<in> ?f ` ?B" by blast
  }
  {
    fix v assume "v \<in> ?f ` ?B"
    then obtain q where q: "q \<in> set ps" "p_val (df ! k) \<le> q" "v = ?f q" by blast
    show "v \<in> ?g ` ?A"
    proof (cases "q = p_val (df ! k)")
      case True
      have "df ! k \<in> ?A"
        using k len by (auto simp: in_set_conv_nth)
      moreover have "v = ?g (df ! k)"
        using q(3) True row[OF rk] by simp
      ultimately show ?thesis by blast
    next
      case False
      with q(2) have lt: "p_val (df ! k) < q" by simp
      from q(1) have "q \<in> p_val ` set df"
        by (simp only: pvs)
      then obtain r where r: "r \<in> set df" "p_val r = q"
        by auto
      then obtain j where j: "j < length ps" "df ! j = r"
        using len by (auto simp: in_set_conv_nth)
      have "average_rank ps (p_val (df ! k)) < average_rank ps q"
        using lt q(1) by (rule average_rank_strict_mono)
      then have rl: "rank (df ! k) < rank r"
        using row[OF r(1)] row[OF rk] r(2) by simp
      have "j \<le> k"
      proof (rule ccontr)
        assume "\<not> j \<le> k"
        then have "k \<le> j" by simp
        then have "rank (df ! j) \<le> rank (df ! k)"
          using j(1) by (rule rank_descending_nth[OF df])
        with rl j(2) show False by simp
      qed
      then have "r \<in> ?A"
        using j k len by (auto simp: in_set_conv_nth intro!: exI[of _ j])
      moreover have "v = ?g r"
        using q(3) r(2) row[OF r(1)] by simp
      ultimately show ?thesis by blast
    qed
  }
qed

section \<open>The adjusted values\<close>

text \<open>
  The adjusted value at position \<open>i\<close>: the least quotient \<open>q * n / rank q\<close> over the
  p-values \<open>q\<close> of the batch that are at least the \<open>i\<close>-th, cut at 1.
\<close>

lemma adjust_sorted_nth:
  assumes df: "rank_descending ps df" and i: "i < length ps"
  shows "adjust_sorted df ! i =
           min (Min ((\<lambda>q. q * real (length ps) / average_rank ps q) ` {q \<in> set ps. ps ! i \<le> q})) 1"
proof -
  let ?g = "\<lambda>r. p_val r * real (length ps) / rank r"
  let ?raw = "map ?g df"
  let ?adj = "map (\<lambda>x. min x 1) (cummin ?raw)"
  let ?Z = "zip (map idx df) ?adj"
  have len: "length df = length ps"
    using df by (rule rank_descending_length)
  have unfold: "adjust_sorted df = map snd (sort_key fst ?Z)"
    by (simp add: adjust_sorted_def Let_def len)
  have lenZ: "length ?Z = length ps"
    by (simp add: len length_cummin)
  have fstZ: "map fst ?Z = map idx df"
    by (simp add: len length_cummin)
  have d: "distinct (map fst ?Z)"
    by (simp only: fstZ rank_descending_distinct_idx[OF df])
  have s: "set (map fst ?Z) = {0 ..< length ?Z}"
    by (simp only: fstZ lenZ rank_descending_set_idx[OF df])
  have "i \<in> set (map idx df)"
    using i by (simp only: rank_descending_set_idx[OF df]) simp
  then obtain k where k: "k < length ps" "idx (df ! k) = i"
    using len by (auto simp: in_set_conv_nth)
  have kz: "k < length ?Z"
    using k(1) by (simp only: lenZ)
  have zk: "?Z ! k = (i, ?adj ! k)"
    using k len by (simp add: length_cummin)
  have "?Z ! k \<in> set ?Z"
    using kz by (rule nth_mem)
  then have "(i, ?adj ! k) \<in> set ?Z"
    by (simp only: zk)
  then have "map snd (sort_key fst ?Z) ! i = ?adj ! k"
    by (rule sort_index_nth[OF d s])
  then have "adjust_sorted df ! i = ?adj ! k"
    by (simp only: unfold)
  also have "\<dots> = min (cummin ?raw ! k) 1"
    using k(1) len by (simp add: length_cummin)
  also have "cummin ?raw ! k = Min (set (take (Suc k) ?raw))"
    using k(1) len by (intro cummin_nth) simp
  also have "set (take (Suc k) ?raw) = ?g ` set (take (Suc k) df)"
    by (simp add: take_map)
  also have "\<dots> = (\<lambda>q. q * real (length ps) / average_rank ps q) ` {q \<in> set ps. p_val (df ! k) \<le> q}"
    using df k(1) by (rule prefix_values)
  also have "p_val (df ! k) = ps ! i"
  proof -
    have "df ! k \<in> set df"
      using k(1) len by simp
    then show ?thesis
      using rank_descending_row[OF df] k(2) by blast
  qed
  finally show ?thesis .
qed

lemma length_adjust_sorted: "length (adjust_sorted df) = length df"
  by (simp add: adjust_sorted_def Let_def length_cummin)

lemma length_BH_adjusted_series: "length (BH_adjusted_series ps) = length ps"
  by (simp add: BH_adjusted_series_def length_adjust_sorted length_to_frame)

lemma BH_adjusted_series_nth:
  "i < length ps \<Longrightarrow>
     BH_adjusted_series ps ! i =
       min (Min ((\<lambda>q. q * real (length ps) / average_rank ps q) ` {q \<in> set ps. ps ! i \<le> q})) 1"
  unfolding BH_adjusted_series_def
  by (rule adjust_sorted_nth[OF sort_values_rank_descending])

text \<open>Whatever order the sort leaves rows of equal rank in, the result is the same.\<close>

lemma adjust_sorted_any_order:
  assumes "rank_descending ps df"
  shows "adjust_sorted df = BH_adjusted_series ps"
proof (rule nth_equalityI)
  show "length (adjust_sorted df) = length (BH_adjusted_series ps)"
    using assms by (simp add: length_adjust_sorted length_BH_adjusted_series rank_descending_length)
next
  fix i assume "i < length (adjust_sorted df)"
  then have "i < length ps"
    using assms by (simp add: length_adjust_sorted rank_descending_length)
  then show "adjust_sorted df ! i = BH_adjusted_series ps ! i"
    using assms by (simp only: adjust_sorted_nth BH_adjusted_series_nth)
qed

lemma BH_adjusted_series_le_1:
  "i < length ps \<Longrightarrow> BH_adjusted_series ps ! i \<le> 1"
  by (simp add: BH_adjusted_series_nth)

lemma BH_adjusted_series_mono:
  assumes i: "i < length ps" and j: "j < length ps" and le: "ps ! i \<le> ps ! j"
  shows "BH_adjusted_series ps ! i \<le> BH_adjusted_series ps ! j"
proof -
  let ?f = "\<lambda>q. q * real (length ps) / average_rank ps q"
  have sub: "?f ` {q \<in> set ps. ps ! j \<le> q} \<subseteq> ?f ` {q \<in> set ps. ps ! i \<le> q}"
    using le by auto
  have ne: "?f ` {q \<in> set ps. ps ! j \<le> q} \<noteq> {}"
    using j by (auto intro!: exI[of _ "ps ! j"])
  have "Min (?f ` {q \<in> set ps. ps ! i \<le> q}) \<le> Min (?f ` {q \<in> set ps. ps ! j \<le> q})"
    using sub ne by (rule Min_antimono) simp
  then show ?thesis
    using i j by (simp add: BH_adjusted_series_nth min_le_iff_disj)
qed

lemma BH_adjusted_series_all_equal:
  assumes "0 < m"
  shows "BH_adjusted_series (replicate m p) =
           replicate m (min (p * real m / ((real m + 1) / 2)) 1)"
proof (rule nth_equalityI)
  show "length (BH_adjusted_series (replicate m p))
      = length (replicate m (min (p * real m / ((real m + 1) / 2)) 1))"
    by (simp add: length_BH_adjusted_series)
next
  fix i assume "i < length (BH_adjusted_series (replicate m p))"
  then have i: "i < m"
    by (simp add: length_BH_adjusted_series)
  then have "{q \<in> set (replicate m p). replicate m p ! i \<le> q} = {p}"
    by auto
  then show "BH_adjusted_series (replicate m p) ! i
           = replicate m (min (p * real m / ((real m + 1) / 2)) 1) ! i"
    using i by (simp add: BH_adjusted_series_nth average_rank_replicate)
qed

lemma astype_float_numbers: "astype_float (map PyNum ps) = Inr ps"
  by (induction ps) simp_all

lemma astype_float_error:
  "astype_float vs = Inl err \<Longrightarrow> \<exists>v. err = AstypeError v"
  by (induction vs rule: astype_float.induct) (auto split: sum.splits)

lemma astype_float_all_num:
  "list_all is_num vs \<Longrightarrow> \<exists>xs. astype_float vs = Inr xs"
  by (induction vs rule: astype_float.induct) auto

lemma BH_adjusted_pval_batch: "BH_adjusted_pval (batch ps) = Inr (BH_adjusted_series ps)"
  by (simp add: BH_adjusted_pval_def batch_def astype_float_numbers)

lemma BH_example: "BH_adjusted_series [2 / 100, 29 / 100] = [4 / 100, 29 / 100]"
  by (simp add: BH_adjusted_series_def adjust_sorted_def to_frame_def average_rank_def
      enumerate_eq_zip upt_rec)

section \<open>Claims about the adjustment\<close>

text \<open>
  C6. For a batch \<open>ps\<close> of numeric p-values \<open>BH_adjusted_pval\<close> returns a sequence of the
  same length. Its value at position \<open>i\<close> is computed from the \<open>i\<close>-th p-value: it is the
  least quotient \<open>q * n / rank q\<close> over the p-values \<open>q\<close> of the batch with \<open>ps ! i \<le> q\<close>,
  cut at 1. Every value is at most 1, and a position with a p-value no larger has an
  adjusted value no larger.
\<close>

theorem BH_adjusted_pval_shape:
  "BH_adjusted_pval (batch ps) = Inr (BH_adjusted_series ps)
   \<and> length (BH_adjusted_series ps) = length ps
   \<and> (\<forall>i<length ps. BH_adjusted_series ps ! i =
         min (Min ((\<lambda>q. q * real (length ps) / average_rank ps q) ` {q \<in> set ps. ps ! i \<le> q})) 1)
   \<and> (\<forall>i<length ps. BH_adjusted_series ps ! i \<le> 1)
   \<and> (\<forall>i<length ps. \<forall>j<length ps.
         ps ! i \<le> ps ! j \<longrightarrow> BH_adjusted_series ps ! i \<le> BH_adjusted_series ps ! j)"
  using BH_adjusted_pval_batch length_BH_adjusted_series BH_adjusted_series_nth
    BH_adjusted_series_le_1 BH_adjusted_series_mono
  by blast

text \<open>The documented batch \<open>{0.02, 0.29}\<close>, adjusted to \<open>{0.04, 0.29}\<close>.\<close>

theorem BH_adjusted_pval_shape_witness:
  "(0::nat) < length [2 / 100, 29 / 100 :: real] \<and> (1::nat) < length [2 / 100, 29 / 100 :: real]
   \<and> [2 / 100, 29 / 100 :: real] ! 0 \<le> [2 / 100, 29 / 100] ! 1
   \<and> BH_adjusted_pval (batch [2 / 100, 29 / 100]) = Inr [4 / 100, 29 / 100]
   \<and> BH_adjusted_series [2 / 100, 29 / 100] ! 0 \<le> BH_adjusted_series [2 / 100, 29 / 100] ! 1
   \<and> BH_adjusted_series [2 / 100, 29 / 100] ! 1 \<le> 1"
proof -
  let ?ps = "[2 / 100, 29 / 100 :: real]"
  have i: "(0::nat) < length ?ps" and j: "(1::nat) < length ?ps" and le: "?ps ! 0 \<le> ?ps ! 1"
    by simp_all
  note t = BH_adjusted_pval_shape[of ?ps]
  from t have "BH_adjusted_pval (batch ?ps) = Inr (BH_adjusted_series ?ps)"
    by (rule conjunct1)
  moreover from t i j le have "BH_adjusted_series ?ps ! 0 \<le> BH_adjusted_series ?ps ! 1"
    by blast
  moreover from t j have "BH_adjusted_series ?ps ! 1 \<le> 1"
    by blast
  ultimately show ?thesis
    using i j le by (simp only: BH_example)
qed

text \<open>
  C3 at the batch \<open>{0.25, 0.25}\<close>. Both values are tied at the average rank \<open>1.5\<close>, the
  quotient is \<open>0.25 * 2 / 1.5\<close>, and both adjusted values are \<open>1/3\<close>, not \<open>0.25\<close>.
  \<open>BH_adjusted_series_all_equal\<close> gives the value for every batch of \<open>m\<close> equal p-values:
  \<open>2 m p / (m + 1)\<close>, cut at 1.
\<close>

theorem BH_adjusted_pval_ties_evaluation:
  "BH_adjusted_pval (batch [1 / 4, 1 / 4]) = Inr [1 / 3, 1 / 3]"
  by (simp add: BH_adjusted_pval_batch BH_adjusted_series_def adjust_sorted_def to_frame_def
      average_rank_def enumerate_eq_zip upt_rec)

text \<open>
  C8, as the code has it. \<open>BH_adjusted_pval\<close> fails with its own error, the one that shows
  the received argument, exactly when the argument is not iterable, and the error then
  carries that argument. For an iterable of numbers it returns a result.
\<close>

theorem BH_adjusted_pval_errors:
  "((\<exists>w. BH_adjusted_pval v = Inl (ValueError_received w)) \<longleftrightarrow> \<not> is_iterable v)
   \<and> (\<not> is_iterable v \<longrightarrow> BH_adjusted_pval v = Inl (ValueError_received v))
   \<and> (iterable_of_numbers v \<longrightarrow> (\<exists>out. BH_adjusted_pval v = Inr out))"
proof -
  have "\<not> is_iterable v" if "BH_adjusted_pval v = Inl (ValueError_received w)" for w
  proof
    assume "is_iterable v"
    with that have "astype_float (series_of v) = Inl (ValueError_received w)"
      by (simp add: BH_adjusted_pval_def split: sum.splits)
    then show False
      using astype_float_error by blast
  qed
  moreover have "BH_adjusted_pval v = Inl (ValueError_received v)" if "\<not> is_iterable v"
    using that by (simp add: BH_adjusted_pval_def)
  moreover have "\<exists>out. BH_adjusted_pval v = Inr out" if "iterable_of_numbers v"
  proof -
    from that obtain xs where "astype_float (series_of v) = Inr xs"
      using astype_float_all_num by (auto simp: iterable_of_numbers_def)
    with that show ?thesis
      by (simp add: BH_adjusted_pval_def iterable_of_numbers_def)
  qed
  ultimately show ?thesis by blast
qed

theorem BH_adjusted_pval_errors_witness:
  "\<not> is_iterable (PyNum (1 / 20))
   \<and> BH_adjusted_pval (PyNum (1 / 20)) = Inl (ValueError_received (PyNum (1 / 20)))
   \<and> iterable_of_numbers (batch [2 / 100, 29 / 100])
   \<and> (\<exists>out. BH_adjusted_pval (batch [2 / 100, 29 / 100]) = Inr out)"
proof -
  have a: "\<not> is_iterable (PyNum (1 / 20))"
    by simp
  have b: "iterable_of_numbers (batch [2 / 100, 29 / 100])"
    by (simp add: iterable_of_numbers_def batch_def)
  show ?thesis
    using a b BH_adjusted_pval_errors[of "PyNum (1 / 20)"]
      BH_adjusted_pval_errors[of "batch [2 / 100, 29 / 100]"]
    by blast
qed

text \<open>
  C8 as stated fails. The list \<open>[[]]\<close> is iterable but not an iterable of numbers. The
  check of the function lets it pass, and the failure comes from the conversion to
  float, at the element \<open>[]\<close>, not from the error that shows the received argument.
\<close>

theorem BH_adjusted_pval_errors_counterexample:
  "\<not> iterable_of_numbers (PyList [PyList []])
   \<and> BH_adjusted_pval (PyList [PyList []]) = Inl (AstypeError (PyList []))
   \<and> BH_adjusted_pval (PyList [PyList []]) \<noteq> Inl (ValueError_received (PyList [PyList []]))"
  by (simp add: iterable_of_numbers_def BH_adjusted_pval_def)

end
